theory Spec2Isabelle
  imports Complex_Main "HOL-Library.Word"
begin

section \<open>Conventions of the embedding\<close>

text \<open>
  The development embeds two packages of the HTTP client: \<^verbatim>\<open>ratelimit\<close> (the
  \<^verbatim>\<open>RateLimiter\<close> wrapper and its rate parser) and \<^verbatim>\<open>auth\<close> (the four
  authenticators and their factory).

  \<^item> Go strings are byte strings: \<open>string\<close> (a list of 8-bit \<open>char\<close>).
  \<^item> Go's \<^verbatim>\<open>int\<close> and \<^verbatim>\<open>time.Duration\<close> are 64-bit. Where the source computes on
    them, the model uses \<open>64 word\<close> (wrap-around included) or \<open>int\<close> with the range
    checks of the source written out.
  \<^item> A reading of \<^verbatim>\<open>time.Now()\<close> is an \<open>int\<close>, nanoseconds on one monotonic timeline.
    Every function that reads the clock takes the reading as an argument, one argument
    per call of \<^verbatim>\<open>time.Now()\<close>.
  \<^item> \<^verbatim>\<open>float64\<close> quantities (the limiter's rate and token count) are exact rationals
    \<open>rat\<close>: rounding is not modelled.
  \<^item> A mutating method takes the receiver and returns it updated. The embedding of a
    method is that of one caller running alone; the interleaving of several callers of
    the OAuth2 authenticator is a transition system of its own, built on the same
    functions.
  \<^item> Errors are values. A \<^verbatim>\<open>nil\<close> error is \<open>None\<close>.
  \<^item> The receiver of a method and the request handed to \<^verbatim>\<open>Apply\<close> are not \<^verbatim>\<open>nil\<close>,
    and the request's header map is allocated, as \<^verbatim>\<open>http.NewRequest\<close> leaves it.
\<close>

section \<open>Standard-library functions the rate parser calls\<close>

text \<open>
  \<^verbatim>\<open>strings.Split\<close>, \<^verbatim>\<open>strconv.Atoi\<close> and \<^verbatim>\<open>time.ParseDuration\<close> are Go's own. They
  are written here after the Go library, loop by loop, with the bounds it checks.
\<close>

definition is_digit :: "char \<Rightarrow> bool" where
  "is_digit c = (48 \<le> (of_char c :: nat) \<and> (of_char c :: nat) \<le> 57)"

definition digit_val :: "char \<Rightarrow> nat" where
  "digit_val c = of_char c - 48"

subsection \<open>\<^verbatim>\<open>strings.Split\<close> with a one-byte separator\<close>

text \<open>
  \<^verbatim>\<open>strings.Split(s, sep)\<close> returns the substrings between the separators; a string
  without the separator (the empty string too) gives a one-element slice.
\<close>

fun Split :: "string \<Rightarrow> char \<Rightarrow> string list" where
  "Split [] sep = [[]]"
| "Split (c # cs) sep =
     (if c = sep then [] # Split cs sep
      else (case Split cs sep of
              [] \<Rightarrow> [[c]]
            | p # ps \<Rightarrow> (c # p) # ps))"

subsection \<open>\<^verbatim>\<open>strconv.Atoi\<close>\<close>

text \<open>
  \<^verbatim>\<open>Atoi(s)\<close> is \<^verbatim>\<open>ParseInt(s, 10, 0)\<close> converted to \<^verbatim>\<open>int\<close> (64 bits): an optional
  sign, then at least one decimal digit and nothing else. \<^verbatim>\<open>ParseUint\<close> reads the
  digits left to right into a \<^verbatim>\<open>uint64\<close> and reports the first error it meets.
\<close>

datatype NumError = ErrSyntax | ErrRange

definition maxUint64 :: nat where
  "maxUint64 = 2 ^ 64 - 1"

fun ParseUint_loop :: "nat \<Rightarrow> string \<Rightarrow> NumError + nat" where
  "ParseUint_loop n [] = Inr n"
| "ParseUint_loop n (c # cs) =
     (if \<not> is_digit c then Inl ErrSyntax
      else if n \<ge> maxUint64 div 10 + 1 then Inl ErrRange
      else if n * 10 + digit_val c > maxUint64 then Inl ErrRange
      else ParseUint_loop (n * 10 + digit_val c) cs)"

definition ParseUint :: "string \<Rightarrow> NumError + nat" where
  "ParseUint s = (if s = [] then Inl ErrSyntax else ParseUint_loop 0 s)"

definition ParseInt :: "string \<Rightarrow> NumError + int" where
  "ParseInt s =
     (case s of
        [] \<Rightarrow> Inl ErrSyntax
      | c # cs \<Rightarrow>
          (let neg = (c = CHR ''-'');
               s' = (if c = CHR ''+'' \<or> c = CHR ''-'' then cs else s)
           in case ParseUint s' of
                Inl e \<Rightarrow> Inl e
              | Inr un \<Rightarrow>
                  if \<not> neg \<and> un \<ge> 2 ^ 63 then Inl ErrRange
                  else if neg \<and> un > 2 ^ 63 then Inl ErrRange
                  else Inr (if neg then - int un else int un)))"

definition Atoi :: "string \<Rightarrow> NumError + int" where
  "Atoi s = ParseInt s"

subsection \<open>\<^verbatim>\<open>time.ParseDuration\<close>\<close>

text \<open>
  A duration is an \<^verbatim>\<open>int64\<close> count of nanoseconds. \<^verbatim>\<open>ParseDuration\<close> reads
  \<^verbatim>\<open>[-+]?([0-9]*(\.[0-9]*)?[a-z]+)+\<close>, accumulating in a \<^verbatim>\<open>uint64\<close> with explicit
  overflow checks against \<open>2 ^ 63\<close>.
\<close>

definition Second :: int where "Second = 1000000000"
definition Minute :: int where "Minute = 60 * Second"
definition Hour :: int where "Hour = 60 * Minute"

fun leadingInt_loop :: "nat \<Rightarrow> string \<Rightarrow> (nat \<times> string) option" where
  "leadingInt_loop x [] = Some (x, [])"
| "leadingInt_loop x (c # cs) =
     (if \<not> is_digit c then Some (x, c # cs)
      else if x > 2 ^ 63 div 10 then None
      else if x * 10 + digit_val c > 2 ^ 63 then None
      else leadingInt_loop (x * 10 + digit_val c) cs)"

definition leadingInt :: "string \<Rightarrow> (nat \<times> string) option" where
  "leadingInt s = leadingInt_loop 0 s"

text \<open>
  \<^verbatim>\<open>leadingFraction\<close> never fails: once the digits no longer fit it keeps consuming
  them and ignores their value. The result is the digits read as a number, the scale
  (a power of ten) and the rest of the string.
\<close>

fun leadingFraction_loop :: "nat \<Rightarrow> rat \<Rightarrow> bool \<Rightarrow> string \<Rightarrow> nat \<times> rat \<times> string" where
  "leadingFraction_loop x scale overflow [] = (x, scale, [])"
| "leadingFraction_loop x scale overflow (c # cs) =
     (if \<not> is_digit c then (x, scale, c # cs)
      else if overflow then leadingFraction_loop x scale overflow cs
      else if x > (2 ^ 63 - 1) div 10 then leadingFraction_loop x scale True cs
      else if x * 10 + digit_val c > 2 ^ 63 then leadingFraction_loop x scale True cs
      else leadingFraction_loop (x * 10 + digit_val c) (scale * 10) overflow cs)"

definition leadingFraction :: "string \<Rightarrow> nat \<times> rat \<times> string" where
  "leadingFraction s = leadingFraction_loop 0 1 False s"

text \<open>The unit table; the two spellings of the micro sign are given by their UTF-8 bytes.\<close>

definition unitMap :: "string \<Rightarrow> nat option" where
  "unitMap u =
     (if u = ''ns'' then Some 1
      else if u = ''us'' then Some 1000
      else if u = [CHR 0xC2, CHR 0xB5, CHR ''s''] then Some 1000
      else if u = [CHR 0xCE, CHR 0xBC, CHR ''s''] then Some 1000
      else if u = ''ms'' then Some 1000000
      else if u = ''s'' then Some 1000000000
      else if u = ''m'' then Some 60000000000
      else if u = ''h'' then Some 3600000000000
      else None)"

datatype DurationError = InvalidDurationSyntax | MissingUnit | UnknownUnit string

definition in_unit :: "char \<Rightarrow> bool" where
  "in_unit c = (\<not> (c = CHR ''.'' \<or> is_digit c))"

text \<open>
  One pass of the loop body of \<^verbatim>\<open>ParseDuration\<close>: a number, an optional fraction and
  a unit. It returns the value in nanoseconds and the rest of the string. The source
  computes the fraction's share as \<^verbatim>\<open>uint64(float64(f) * (float64(unit) / scale))\<close>;
  here it is the exact quotient, truncated.
\<close>

definition ParseDuration_term :: "string \<Rightarrow> DurationError + (nat \<times> string)" where
  "ParseDuration_term s =
     (case s of
        [] \<Rightarrow> Inl InvalidDurationSyntax
      | c # _ \<Rightarrow>
        if \<not> (c = CHR ''.'' \<or> is_digit c) then Inl InvalidDurationSyntax
        else (case leadingInt s of
          None \<Rightarrow> Inl InvalidDurationSyntax
        | Some (v, s1) \<Rightarrow>
            let pre = (length s \<noteq> length s1);
                (f, scale, s2, post) =
                   (case s1 of
                      d # s1' \<Rightarrow>
                        if d = CHR ''.''
                        then (let (f, scale, r) = leadingFraction s1'
                              in (f, scale, r, length s1' \<noteq> length r))
                        else (0, 1, s1, False)
                    | [] \<Rightarrow> (0, 1, s1, False))
            in if \<not> pre \<and> \<not> post then Inl InvalidDurationSyntax
               else (let u = takeWhile in_unit s2; s3 = dropWhile in_unit s2
                     in if u = [] then Inl MissingUnit
                        else (case unitMap u of
                          None \<Rightarrow> Inl (UnknownUnit u)
                        | Some unit \<Rightarrow>
                            if v > 2 ^ 63 div unit then Inl InvalidDurationSyntax
                            else (let v1 = v * unit;
                                      v2 = (if f > 0
                                            then v1 + nat \<lfloor>of_nat f * (of_nat unit / scale)\<rfloor>
                                            else v1)
                                  in if f > 0 \<and> v2 > 2 ^ 63 then Inl InvalidDurationSyntax
                                     else Inr (v2, s3))))))"

text \<open>
  The loop \<^verbatim>\<open>for s != ""\<close>. The sum \<^verbatim>\<open>d += v\<close> is a \<^verbatim>\<open>uint64\<close> sum and is taken
  modulo \<open>2 ^ 64\<close>. Every pass consumes at least the unit, which is what the guard on
  the lengths records (lemma \<open>ParseDuration_term_shorter\<close> shows that it never
  fires).
\<close>

function ParseDuration_loop :: "nat \<Rightarrow> string \<Rightarrow> DurationError + nat" where
  "ParseDuration_loop d s =
     (if s = [] then Inr d
      else (case ParseDuration_term s of
              Inl e \<Rightarrow> Inl e
            | Inr (v, s') \<Rightarrow>
                if \<not> length s' < length s then Inl InvalidDurationSyntax
                else if (d + v) mod 2 ^ 64 > 2 ^ 63 then Inl InvalidDurationSyntax
                else ParseDuration_loop ((d + v) mod 2 ^ 64) s'))"
  by pat_completeness auto
termination
  by (relation "measure (\<lambda>(d, s). length s)") auto

declare ParseDuration_loop.simps [simp del]

definition ParseDuration :: "string \<Rightarrow> DurationError + int" where
  "ParseDuration orig =
     (let neg = (orig \<noteq> [] \<and> hd orig = CHR ''-'');
          s = (if orig \<noteq> [] \<and> (hd orig = CHR ''-'' \<or> hd orig = CHR ''+'') then tl orig else orig)
      in if s = ''0'' then Inr 0
         else if s = [] then Inl InvalidDurationSyntax
         else (case ParseDuration_loop 0 s of
                 Inl e \<Rightarrow> Inl e
               | Inr d \<Rightarrow>
                   if neg then Inr (- int d)
                   else if d > 2 ^ 63 - 1 then Inl InvalidDurationSyntax
                   else Inr (int d)))"

section \<open>Package \<^verbatim>\<open>ratelimit\<close>: parsing a rate\<close>

datatype RateError =
    BadFormat
  | RequestsNotPositive
  | DurationUnparsable
  | DurationNotPositive
  | InvalidDuration RateError
  | InvalidRateFormat RateError
  | RateLimitExceeded
  | NilLimiter

text \<open>
  \<^verbatim>\<open>parseDuration\<close>: the bare units \<^verbatim>\<open>s\<close>, \<^verbatim>\<open>m\<close>, \<^verbatim>\<open>h\<close> first, then
  \<^verbatim>\<open>time.ParseDuration\<close>, whose result must be positive.
\<close>

definition parseDuration :: "string \<Rightarrow> RateError + int" where
  "parseDuration durStr =
     (if durStr = ''s'' then Inr Second
      else if durStr = ''m'' then Inr Minute
      else if durStr = ''h'' then Inr Hour
      else (case ParseDuration durStr of
              Inl _ \<Rightarrow> Inl DurationUnparsable
            | Inr duration \<Rightarrow>
                if duration \<le> 0 then Inl DurationNotPositive
                else Inr duration))"

text \<open>\<^verbatim>\<open>Duration.Seconds()\<close>, as an exact rational.\<close>

definition Seconds :: "int \<Rightarrow> rat" where
  "Seconds d = of_int d / 1000000000"

text \<open>
  \<^verbatim>\<open>parseRate\<close> returns the limit (events per second) and the burst.
\<close>

definition parseRate :: "string \<Rightarrow> RateError + (rat \<times> int)" where
  "parseRate rateStr =
     (case Split rateStr (CHR ''/'') of
        [p0, p1] \<Rightarrow>
          (case Atoi p0 of
             Inl _ \<Rightarrow> Inl RequestsNotPositive
           | Inr requests \<Rightarrow>
               if requests \<le> 0 then Inl RequestsNotPositive
               else (case parseDuration p1 of
                       Inl e \<Rightarrow> Inl (InvalidDuration e)
                     | Inr duration \<Rightarrow>
                         Inr (of_int requests / Seconds duration, requests)))
      | _ \<Rightarrow> Inl BadFormat)"

section \<open>The token bucket of \<^verbatim>\<open>golang.org/x/time/rate\<close>\<close>

text \<open>
  Modelled from the spec: \<^verbatim>\<open>rate.Limiter\<close> belongs to the dependency
  \<^verbatim>\<open>golang.org/x/time/rate\<close>, which is not among the source files. The spec describes
  it as a bucket of up to \<open>burst\<close> permits, replenished continuously at \<open>limit\<close>
  permits per second since the last check and capped at \<open>burst\<close>; an admission
  succeeds and takes one permit if at least one is available, and otherwise fails at once
  and leaves the bucket as it was. The dependency's documentation adds that the bucket
  is initially full. The count of permits is a real number in the spec; the dependency
  computes in \<^verbatim>\<open>float64\<close> and in whole nanoseconds. Here the count is an exact
  rational and nothing is rounded.
\<close>

record Limiter =
  limit :: rat
  burst :: int
  tokens :: rat
  last_time :: int

definition NewLimiter :: "rat \<Rightarrow> int \<Rightarrow> Limiter" where
  "NewLimiter r b = \<lparr>limit = r, burst = b, tokens = of_int b, last_time = 0\<rparr>"

text \<open>The permits available at the instant \<open>now\<close>: replenished, then capped.\<close>

definition advance :: "int \<Rightarrow> Limiter \<Rightarrow> rat" where
  "advance now l =
     (let elapsed = (if now < last_time l then 0 else now - last_time l);
          delta = limit l * Seconds elapsed
      in min (of_int (burst l)) (tokens l + delta))"

definition Limiter_Allow :: "int \<Rightarrow> Limiter \<Rightarrow> bool \<times> Limiter" where
  "Limiter_Allow now l =
     (let t = advance now l
      in if 1 \<le> t then (True, l\<lparr>tokens := t - 1, last_time := now\<rparr>)
         else (False, l))"

definition SetLimit :: "int \<Rightarrow> rat \<Rightarrow> Limiter \<Rightarrow> Limiter" where
  "SetLimit now newLimit l = l\<lparr>tokens := advance now l, last_time := now, limit := newLimit\<rparr>"

definition SetBurst :: "int \<Rightarrow> int \<Rightarrow> Limiter \<Rightarrow> Limiter" where
  "SetBurst now newBurst l = l\<lparr>tokens := advance now l, last_time := now, burst := newBurst\<rparr>"

definition Limit :: "Limiter \<Rightarrow> rat" where
  "Limit l = limit l"

definition Burst :: "Limiter \<Rightarrow> int" where
  "Burst l = burst l"

definition Tokens :: "int \<Rightarrow> Limiter \<Rightarrow> rat" where
  "Tokens now l = advance now l"

section \<open>Package \<^verbatim>\<open>ratelimit\<close>: the \<^verbatim>\<open>RateLimiter\<close>\<close>

text \<open>
  The field \<open>limiter\<close> is a pointer: \<open>None\<close> is \<^verbatim>\<open>nil\<close>. A method call through a
  \<^verbatim>\<open>nil\<close> limiter panics in Go; the model returns \<open>NilLimiter\<close> there.
\<close>

record RateLimiter =
  limiter :: "Limiter option"
  enabled :: bool

definition New :: "string \<Rightarrow> RateError + RateLimiter" where
  "New rateStr =
     (if rateStr = [] then Inr \<lparr>limiter = None, enabled = False\<rparr>
      else (case parseRate rateStr of
              Inl e \<Rightarrow> Inl (InvalidRateFormat e)
            | Inr (r, b) \<Rightarrow> Inr \<lparr>limiter = Some (NewLimiter r b), enabled = True\<rparr>))"

definition Allow :: "int \<Rightarrow> RateLimiter \<Rightarrow> RateError option \<times> RateLimiter" where
  "Allow now rl =
     (if \<not> enabled rl then (None, rl)
      else (case limiter rl of
              None \<Rightarrow> (Some NilLimiter, rl)
            | Some l \<Rightarrow>
                (let (ok, l') = Limiter_Allow now l
                 in if \<not> ok then (Some RateLimitExceeded, rl\<lparr>limiter := Some l'\<rparr>)
                    else (None, rl\<lparr>limiter := Some l'\<rparr>))))"

text \<open>
  \<^verbatim>\<open>SetRate\<close> reads the clock twice when the limiter exists, once in \<^verbatim>\<open>SetLimit\<close>
  and once in \<^verbatim>\<open>SetBurst\<close>.
\<close>

definition SetRate :: "int \<Rightarrow> int \<Rightarrow> string \<Rightarrow> RateLimiter \<Rightarrow> RateError option \<times> RateLimiter" where
  "SetRate now1 now2 rateStr rl =
     (if rateStr = [] then (None, rl\<lparr>enabled := False\<rparr>)
      else (case parseRate rateStr of
              Inl e \<Rightarrow> (Some (InvalidRateFormat e), rl)
            | Inr (r, b) \<Rightarrow>
                (let l' = (case limiter rl of
                             None \<Rightarrow> NewLimiter r b
                           | Some l \<Rightarrow> SetBurst now2 b (SetLimit now1 r l))
                 in (None, rl\<lparr>limiter := Some l', enabled := True\<rparr>))))"

definition IsEnabled :: "RateLimiter \<Rightarrow> bool" where
  "IsEnabled rl = enabled rl"

text \<open>The values of the \<^verbatim>\<open>map[string]any\<close> that \<^verbatim>\<open>Stats\<close> returns.\<close>

datatype any = AnyBool bool | AnyFloat64 rat | AnyInt int

definition Stats :: "int \<Rightarrow> RateLimiter \<Rightarrow> (string \<rightharpoonup> any)" where
  "Stats now rl =
     (let stats = [''enabled'' \<mapsto> AnyBool (enabled rl)]
      in case limiter rl of
           Some l \<Rightarrow>
             if enabled rl
             then stats(''limit'' \<mapsto> AnyFloat64 (Limit l),
                        ''burst'' \<mapsto> AnyInt (Burst l),
                        ''tokens'' \<mapsto> AnyFloat64 (Tokens now l))
             else stats
         | None \<Rightarrow> stats)"

text \<open>
  Consecutive calls of \<^verbatim>\<open>Allow\<close>, every one of them at the same clock reading: the
  results in order, and the limiter after the last call.
\<close>

fun Allow_times :: "int \<Rightarrow> nat \<Rightarrow> RateLimiter \<Rightarrow> RateError option list \<times> RateLimiter" where
  "Allow_times now 0 rl = ([], rl)"
| "Allow_times now (Suc k) rl =
     (let (r, rl') = Allow now rl;
          (rs, rl'') = Allow_times now k rl'
      in (r # rs, rl''))"

text \<open>The decimal numeral of a natural number, as \<^verbatim>\<open>strconv.Itoa\<close> writes it.\<close>

definition digit_char :: "nat \<Rightarrow> char" where
  "digit_char d = char_of (48 + d)"

function decimal :: "nat \<Rightarrow> string" where
  "decimal n = (if n < 10 then [digit_char n] else decimal (n div 10) @ [digit_char (n mod 10)])"
  by pat_completeness auto
termination
  by (relation "measure (\<lambda>n. n)") auto

declare decimal.simps [simp del]

text \<open>
  The states a \<^verbatim>\<open>RateLimiter\<close> can be in: the fields are unexported, so a value is
  the zero value or comes from \<^verbatim>\<open>New\<close>, and it changes through the methods only.
  \<^verbatim>\<open>Wait\<close> is not embedded; it hands over to \<^verbatim>\<open>rate.Limiter.Wait\<close>, which may
  change the bucket in any way and nothing else, and is a rule of its own.
\<close>

inductive reachable :: "RateLimiter \<Rightarrow> bool" where
  zero: "reachable \<lparr>limiter = None, enabled = False\<rparr>"
| new: "New rateStr = Inr rl \<Longrightarrow> reachable rl"
| allow: "reachable rl \<Longrightarrow> reachable (snd (Allow now rl))"
| setRate: "reachable rl \<Longrightarrow> reachable (snd (SetRate now1 now2 rateStr rl))"
| wait: "reachable rl \<Longrightarrow> limiter rl = Some l \<Longrightarrow> reachable (rl\<lparr>limiter := Some l'\<rparr>)"

section \<open>Package \<^verbatim>\<open>auth\<close>: the request and its header\<close>

text \<open>
  An authenticator touches the header of the request and nothing else.
  \<^verbatim>\<open>http.Header\<close> is a \<^verbatim>\<open>map[string][]string\<close>; \<^verbatim>\<open>Header.Set\<close> stores the value as
  the only one under the canonical form of the key, and \<^verbatim>\<open>Header.Get\<close> reads the first
  value under that form (the empty string when there is none).
\<close>

type_synonym Header = "string \<rightharpoonup> string list"

record Request =
  Header :: Header

definition is_lower :: "char \<Rightarrow> bool" where
  "is_lower c = (97 \<le> (of_char c :: nat) \<and> (of_char c :: nat) \<le> 122)"

definition is_upper :: "char \<Rightarrow> bool" where
  "is_upper c = (65 \<le> (of_char c :: nat) \<and> (of_char c :: nat) \<le> 90)"

definition validHeaderFieldByte :: "char \<Rightarrow> bool" where
  "validHeaderFieldByte c =
     (is_digit c \<or> is_lower c \<or> is_upper c \<or>
      (of_char c :: nat) \<in> set [33, 35, 36, 37, 38, 39, 42, 43, 45, 46, 94, 95, 96, 124, 126])"

text \<open>
  The canonical form: the first letter and every letter after a hyphen in upper case,
  the others in lower case. A key with a byte that is not a header field byte is left
  as it is.
\<close>

fun canonicalize :: "bool \<Rightarrow> string \<Rightarrow> string" where
  "canonicalize upper [] = []"
| "canonicalize upper (c # cs) =
     (let c' = (if upper \<and> is_lower c then char_of ((of_char c :: nat) - 32)
                else if \<not> upper \<and> is_upper c then char_of ((of_char c :: nat) + 32)
                else c)
      in c' # canonicalize (c' = CHR ''-'') cs)"

definition CanonicalMIMEHeaderKey :: "string \<Rightarrow> string" where
  "CanonicalMIMEHeaderKey s =
     (if list_all validHeaderFieldByte s then canonicalize True s else s)"

definition Header_Set :: "Header \<Rightarrow> string \<Rightarrow> string \<Rightarrow> Header" where
  "Header_Set h key v = h(CanonicalMIMEHeaderKey key \<mapsto> [v])"

definition Header_Get :: "Header \<Rightarrow> string \<Rightarrow> string" where
  "Header_Get h key =
     (case h (CanonicalMIMEHeaderKey key) of
        None \<Rightarrow> []
      | Some [] \<Rightarrow> []
      | Some (v # _) \<Rightarrow> v)"

subsection \<open>\<^verbatim>\<open>base64.StdEncoding.EncodeToString\<close>\<close>

definition encodeStd :: "nat \<Rightarrow> char" where
  "encodeStd i =
     ''ABCDEFGHIJKLMNOPQRSTUVWXYZabcdefghijklmnopqrstuvwxyz0123456789+/'' ! i"

fun EncodeToString :: "string \<Rightarrow> string" where
  "EncodeToString [] = []"
| "EncodeToString [a] =
     (let x = (of_char a :: nat)
      in [encodeStd (x div 4), encodeStd (x mod 4 * 16), CHR ''='', CHR ''=''])"
| "EncodeToString [a, b] =
     (let x = (of_char a :: nat); y = (of_char b :: nat)
      in [encodeStd (x div 4), encodeStd (x mod 4 * 16 + y div 16),
          encodeStd (y mod 16 * 4), CHR ''=''])"
| "EncodeToString (a # b # c # rest) =
     (let x = (of_char a :: nat); y = (of_char b :: nat); z = (of_char c :: nat)
      in [encodeStd (x div 4), encodeStd (x mod 4 * 16 + y div 16),
          encodeStd (y mod 16 * 4 + z div 64), encodeStd (z mod 64)]
         @ EncodeToString rest)"

text \<open>
  \<^verbatim>\<open>Request.SetBasicAuth\<close> sets \<^verbatim>\<open>Authorization\<close> to \<^verbatim>\<open>Basic\<close> and the base64 form of
  \<^verbatim>\<open>username:password\<close>.
\<close>

definition SetBasicAuth :: "string \<Rightarrow> string \<Rightarrow> Request \<Rightarrow> Request" where
  "SetBasicAuth u p req =
     req\<lparr>Header := Header_Set (Header req) ''Authorization''
                       (''Basic '' @ EncodeToString (u @ '':'' @ p))\<rparr>"

section \<open>Package \<^verbatim>\<open>auth\<close>: the stateless authenticators\<close>

datatype AuthError =
    MissingOAuth2Fields
  | CreateRequestFailed
  | TokenRequestFailed
  | TokenStatusFailed int
  | TokenDecodeFailed
  | NoAccessToken
  | GetTokenFailed AuthError

record BasicAuth =
  username :: string
  password :: string

definition NewBasicAuth :: "string \<Rightarrow> string \<Rightarrow> BasicAuth" where
  "NewBasicAuth u p = \<lparr>username = u, password = p\<rparr>"

definition BasicAuth_Apply :: "BasicAuth \<Rightarrow> Request \<Rightarrow> AuthError option \<times> Request" where
  "BasicAuth_Apply b req =
     (if username b \<noteq> [] \<or> password b \<noteq> []
      then (None, SetBasicAuth (username b) (password b) req)
      else (None, req))"

definition EncodeCredentials :: "BasicAuth \<Rightarrow> string" where
  "EncodeCredentials b = EncodeToString (username b @ '':'' @ password b)"

text \<open>The field \<^verbatim>\<open>token\<close> of \<^verbatim>\<open>BearerAuth\<close> is \<open>bearer_token\<close> here.\<close>

record BearerAuth =
  bearer_token :: string

definition NewBearerAuth :: "string \<Rightarrow> BearerAuth" where
  "NewBearerAuth t = \<lparr>bearer_token = t\<rparr>"

definition BearerAuth_Apply :: "BearerAuth \<Rightarrow> Request \<Rightarrow> AuthError option \<times> Request" where
  "BearerAuth_Apply b req =
     (if bearer_token b \<noteq> []
      then (None, req\<lparr>Header := Header_Set (Header req) ''Authorization''
                                     (''Bearer '' @ bearer_token b)\<rparr>)
      else (None, req))"

text \<open>The fields \<^verbatim>\<open>header\<close> and \<^verbatim>\<open>value\<close> of \<^verbatim>\<open>CustomAuth\<close>.\<close>

record CustomAuth =
  header :: string
  header_value :: string

definition NewCustomAuth :: "string \<Rightarrow> string \<Rightarrow> CustomAuth" where
  "NewCustomAuth h v = \<lparr>header = h, header_value = v\<rparr>"

definition CustomAuth_Apply :: "CustomAuth \<Rightarrow> Request \<Rightarrow> AuthError option \<times> Request" where
  "CustomAuth_Apply c req =
     (if header c \<noteq> [] \<and> header_value c \<noteq> []
      then (None, req\<lparr>Header := Header_Set (Header req) (header c) (header_value c)\<rparr>)
      else (None, req))"

section \<open>Package \<^verbatim>\<open>auth\<close>: OAuth2 client credentials\<close>

text \<open>
  The zero \<^verbatim>\<open>time.Time\<close> of a fresh authenticator is the reading \<open>0\<close>; it is never
  compared, since the token is empty then.
\<close>

record OAuth2ClientCredentials =
  clientID :: string
  clientSecret :: string
  tokenURL :: string
  scopes :: "string list"
  token :: string
  expiry :: int

record tokenResponse =
  AccessToken :: string
  TokenType :: string
  ExpiresIn :: "64 word"

definition NewOAuth2ClientCredentials ::
  "string \<Rightarrow> string \<Rightarrow> string \<Rightarrow> string list \<Rightarrow> AuthError + OAuth2ClientCredentials" where
  "NewOAuth2ClientCredentials cid csecret url scs =
     (if cid = [] \<or> csecret = [] \<or> url = [] then Inl MissingOAuth2Fields
      else Inr \<lparr>clientID = cid, clientSecret = csecret, tokenURL = url, scopes = scs,
                 token = [], expiry = 0\<rparr>)"

text \<open>
  The token endpoint is the environment. It is a function from the request that
  \<^verbatim>\<open>fetchToken\<close> builds to what comes back: \<^verbatim>\<open>http.NewRequest\<close> refuses the URL, the
  round trip fails, or a response arrives with a status code and a body, the body
  given by what \<^verbatim>\<open>json.Decode\<close> makes of it (\<open>None\<close> when it is not valid JSON for a
  \<^verbatim>\<open>tokenResponse\<close>; an absent field decodes to the empty string or to zero).
\<close>

record TokenRequest =
  Method :: string
  URL :: string
  Form :: "string \<rightharpoonup> string list"
  ReqHeader :: Header

datatype TokenReply =
    NewRequestError
  | DoError
  | Response int "tokenResponse option"

fun Join :: "string list \<Rightarrow> string \<Rightarrow> string" where
  "Join [] sep = []"
| "Join [x] sep = x"
| "Join (x # y # ys) sep = x @ sep @ Join (y # ys) sep"

definition tokenRequest :: "OAuth2ClientCredentials \<Rightarrow> TokenRequest" where
  "tokenRequest o2 =
     (let data = [''grant_type'' \<mapsto> [''client_credentials''],
                  ''client_id'' \<mapsto> [clientID o2],
                  ''client_secret'' \<mapsto> [clientSecret o2]];
          data' = (if length (scopes o2) > 0
                   then data(''scope'' \<mapsto> [Join (scopes o2) '' ''])
                   else data)
      in \<lparr>Method = ''POST'', URL = tokenURL o2, Form = data',
          ReqHeader = Header_Set
                        (Header_Set Map.empty ''Content-Type'' ''application/x-www-form-urlencoded'')
                        ''Accept'' ''application/json''\<rparr>)"

text \<open>
  \<^verbatim>\<open>fetchToken\<close>. The expiry is computed in \<^verbatim>\<open>int64\<close>:
  \<^verbatim>\<open>time.Duration(tokenResp.ExpiresIn-60) * time.Second\<close> is a subtraction and a
  multiplication of 64-bit words, read as a signed number of nanoseconds and added to
  the clock reading.
\<close>

definition fetchToken ::
  "(TokenRequest \<Rightarrow> TokenReply) \<Rightarrow> int \<Rightarrow> OAuth2ClientCredentials
     \<Rightarrow> (AuthError + string) \<times> OAuth2ClientCredentials" where
  "fetchToken net now o2 =
     (case net (tokenRequest o2) of
        NewRequestError \<Rightarrow> (Inl CreateRequestFailed, o2)
      | DoError \<Rightarrow> (Inl TokenRequestFailed, o2)
      | Response status body \<Rightarrow>
          if status \<noteq> 200 then (Inl (TokenStatusFailed status), o2)
          else (case body of
                  None \<Rightarrow> (Inl TokenDecodeFailed, o2)
                | Some tokenResp \<Rightarrow>
                    if AccessToken tokenResp = [] then (Inl NoAccessToken, o2)
                    else (let o3 = o2\<lparr>token := AccessToken tokenResp,
                                        expiry :=
                                          (if 0 <s ExpiresIn tokenResp
                                           then now + sint ((ExpiresIn tokenResp - 60) * 1000000000)
                                           else now + 55 * Minute)\<rparr>
                          in (Inr (token o3), o3))))"

text \<open>The condition both checks of \<^verbatim>\<open>getValidToken\<close> test.\<close>

definition tokenValid :: "int \<Rightarrow> OAuth2ClientCredentials \<Rightarrow> bool" where
  "tokenValid now o2 = (token o2 \<noteq> [] \<and> now < expiry o2)"

text \<open>
  \<^verbatim>\<open>getValidToken\<close> for one caller: the check under the read lock at \<open>now1\<close>, the
  check under the write lock at \<open>now2\<close>, and the fetch, which reads the clock at
  \<open>now3\<close>.
\<close>

definition getValidToken ::
  "(TokenRequest \<Rightarrow> TokenReply) \<Rightarrow> int \<Rightarrow> int \<Rightarrow> int \<Rightarrow> OAuth2ClientCredentials
     \<Rightarrow> (AuthError + string) \<times> OAuth2ClientCredentials" where
  "getValidToken net now1 now2 now3 o2 =
     (if tokenValid now1 o2 then (Inr (token o2), o2)
      else if tokenValid now2 o2 then (Inr (token o2), o2)
      else fetchToken net now3 o2)"

definition OAuth2_Apply ::
  "(TokenRequest \<Rightarrow> TokenReply) \<Rightarrow> int \<Rightarrow> int \<Rightarrow> int \<Rightarrow> OAuth2ClientCredentials \<Rightarrow> Request
     \<Rightarrow> AuthError option \<times> Request \<times> OAuth2ClientCredentials" where
  "OAuth2_Apply net now1 now2 now3 o2 req =
     (case getValidToken net now1 now2 now3 o2 of
        (Inl err, o3) \<Rightarrow> (Some (GetTokenFailed err), req, o3)
      | (Inr tok, o3) \<Rightarrow>
          (None, req\<lparr>Header := Header_Set (Header req) ''Authorization'' (''Bearer '' @ tok)\<rparr>, o3))"

section \<open>Package \<^verbatim>\<open>auth\<close>: the factory\<close>

record Config =
  Username :: string
  Password :: string
  BearerToken :: string
  ClientID :: string
  ClientSecret :: string
  TokenURL :: string
  Scopes :: "string list"
  CustomHeader :: string
  CustomValue :: string

datatype Authenticator =
    Basic BasicAuth
  | Bearer BearerAuth
  | OAuth2 OAuth2ClientCredentials
  | Custom CustomAuth

text \<open>The result \<open>Inr None\<close> is the pair \<^verbatim>\<open>nil, nil\<close>: no authenticator and no error.\<close>

definition NewAuthenticator :: "Config \<Rightarrow> AuthError + Authenticator option" where
  "NewAuthenticator config =
     (if Username config \<noteq> [] \<or> Password config \<noteq> []
      then Inr (Some (Basic (NewBasicAuth (Username config) (Password config))))
      else if BearerToken config \<noteq> []
      then Inr (Some (Bearer (NewBearerAuth (BearerToken config))))
      else if ClientID config \<noteq> [] \<and> ClientSecret config \<noteq> [] \<and> TokenURL config \<noteq> []
      then (case NewOAuth2ClientCredentials (ClientID config) (ClientSecret config)
                   (TokenURL config) (Scopes config) of
              Inl err \<Rightarrow> Inl err
            | Inr o2 \<Rightarrow> Inr (Some (OAuth2 o2)))
      else if CustomHeader config \<noteq> [] \<and> CustomValue config \<noteq> []
      then Inr (Some (Custom (NewCustomAuth (CustomHeader config) (CustomValue config))))
      else Inr None)"

section \<open>Package \<^verbatim>\<open>auth\<close>: concurrent callers of \<^verbatim>\<open>getValidToken\<close>\<close>

text \<open>
  Several goroutines call \<^verbatim>\<open>Apply\<close> on one authenticator. Each of them runs
  \<^verbatim>\<open>getValidToken\<close>, and its position in that function is one of:
  \<^item> \<open>AtRLock\<close>: about to call \<^verbatim>\<open>o.mutex.RLock()\<close>;
  \<^item> \<open>HasRLock\<close>: holds the read lock, about to test the cached token;
  \<^item> \<open>AtLock\<close>: the test failed and the read lock is released, about to call
    \<^verbatim>\<open>o.mutex.Lock()\<close>;
  \<^item> \<open>HasLock\<close>: holds the write lock, about to test the cached token again;
  \<^item> \<open>InFetch\<close>: inside \<^verbatim>\<open>fetchToken\<close>, the write lock still held, waiting for the
    token endpoint;
  \<^item> \<open>Returned r\<close>: \<^verbatim>\<open>getValidToken\<close> has returned \<open>r\<close> and released its lock.

  The shared state is the authenticator, the \<^verbatim>\<open>sync.RWMutex\<close> (the number of readers
  and the caller that holds the write lock, if any), the clock, and a count of the
  calls of \<^verbatim>\<open>fetchToken\<close>. Every such call sends one request to the token endpoint,
  unless \<^verbatim>\<open>http.NewRequest\<close> refuses the URL.
\<close>

datatype pc = AtRLock | HasRLock | AtLock | HasLock | InFetch | Returned "AuthError + string"

record system =
  auth :: OAuth2ClientCredentials
  readers :: nat
  writer :: "nat option"
  fetches :: nat
  clock :: int
  ncallers :: nat
  callers :: "nat \<Rightarrow> pc"

text \<open>
  What can happen next: a caller takes a lock when the mutex lets it, tests the token
  (reading the clock), or gets the endpoint's reply and finishes \<^verbatim>\<open>fetchToken\<close>; or
  time passes.
\<close>

datatype event =
    RLock nat
  | Check1 nat
  | Lock nat
  | Check2 nat
  | Reply nat TokenReply
  | Tick nat

fun step :: "event \<Rightarrow> system \<Rightarrow> system option" where
  "step (Tick d) s = Some (s\<lparr>clock := clock s + int d\<rparr>)"
| "step (RLock i) s =
     (if i < ncallers s \<and> callers s i = AtRLock \<and> writer s = None
      then Some (s\<lparr>readers := readers s + 1, callers := (callers s)(i := HasRLock)\<rparr>)
      else None)"
| "step (Check1 i) s =
     (if i < ncallers s \<and> callers s i = HasRLock
      then (if tokenValid (clock s) (auth s)
            then Some (s\<lparr>readers := readers s - 1,
                         callers := (callers s)(i := Returned (Inr (token (auth s))))\<rparr>)
            else Some (s\<lparr>readers := readers s - 1, callers := (callers s)(i := AtLock)\<rparr>))
      else None)"
| "step (Lock i) s =
     (if i < ncallers s \<and> callers s i = AtLock \<and> writer s = None \<and> readers s = 0
      then Some (s\<lparr>writer := Some i, callers := (callers s)(i := HasLock)\<rparr>)
      else None)"
| "step (Check2 i) s =
     (if i < ncallers s \<and> callers s i = HasLock
      then (if tokenValid (clock s) (auth s)
            then Some (s\<lparr>writer := None,
                         callers := (callers s)(i := Returned (Inr (token (auth s))))\<rparr>)
            else Some (s\<lparr>fetches := fetches s + 1, callers := (callers s)(i := InFetch)\<rparr>))
      else None)"
| "step (Reply i r) s =
     (if i < ncallers s \<and> callers s i = InFetch
      then (let (res, o3) = fetchToken (\<lambda>_. r) (clock s) (auth s)
            in Some (s\<lparr>auth := o3, writer := None, callers := (callers s)(i := Returned res)\<rparr>))
      else None)"



subsection \<open>Predicates on runs\<close>

text \<open>
  The definitions below embed nothing of the source: they are the invariants and the
  side condition that the facts about concurrent callers are stated with.
\<close>






section \<open>Facts about the standard-library functions\<close>


lemma Split_at_sep: "sep \<notin> set p \<Longrightarrow> Split (p @ sep # q) sep = p # Split q sep"
  by (induction p) auto

lemma is_digit_digit_char: "d < 10 \<Longrightarrow> is_digit (digit_char d)"
  by (simp add: is_digit_def digit_char_def)

lemma digit_val_digit_char: "d < 10 \<Longrightarrow> digit_val (digit_char d) = d"
  by (simp add: digit_val_def digit_char_def)

lemma is_digit_not_slash: "is_digit c \<Longrightarrow> c \<noteq> CHR ''/''"
  by (auto simp: is_digit_def)

lemma is_digit_not_sign: "is_digit c \<Longrightarrow> c \<noteq> CHR ''+'' \<and> c \<noteq> CHR ''-''"
  by (auto simp: is_digit_def)

lemma decimal_digits: "list_all is_digit (decimal n)"
proof (induction n rule: decimal.induct)
  case (1 n)
  show ?case
  proof (cases "n < 10")
    case True
    then show ?thesis
      by (subst decimal.simps) (simp add: is_digit_digit_char)
  next
    case False
    with 1 show ?thesis
      by (subst decimal.simps) (simp add: is_digit_digit_char)
  qed
qed

lemma decimal_not_Nil: "decimal n \<noteq> []"
  by (subst decimal.simps) simp

lemma slash_notin_decimal: "CHR ''/'' \<notin> set (decimal n)"
  using decimal_digits[of n] is_digit_not_slash by (auto simp: list_all_iff)

lemma ParseUint_loop_append:
  "ParseUint_loop n (xs @ ys) =
     (case ParseUint_loop n xs of Inl e \<Rightarrow> Inl e | Inr m \<Rightarrow> ParseUint_loop m ys)"
  by (induction xs arbitrary: n) auto

text \<open>Reading back a decimal numeral: the number itself when it fits 64 bits.\<close>

lemma ParseUint_loop_decimal:
  "ParseUint_loop 0 (decimal n) = (if n \<le> maxUint64 then Inr n else Inl ErrRange)"
proof (induction n rule: decimal.induct)
  case (1 n)
  show ?case
  proof (cases "n < 10")
    case True
    then show ?thesis
      by (subst decimal.simps)
         (simp add: is_digit_digit_char digit_val_digit_char maxUint64_def)
  next
    case False
    have eq: "n div 10 * 10 + n mod 10 = n" by simp
    have big: "maxUint64 < n div 10 \<Longrightarrow> maxUint64 < n" by simp
    have cut: "maxUint64 div 10 + 1 \<le> n div 10 \<Longrightarrow> maxUint64 < n"
      by (simp add: maxUint64_def)
    from False "1.IH"[OF False] big cut show ?thesis
      by (subst decimal.simps)
         (auto simp add: ParseUint_loop_append is_digit_digit_char digit_val_digit_char eq)
  qed
qed

lemma Atoi_decimal:
  "Atoi (decimal n) = (if n < 2 ^ 63 then Inr (int n) else Inl ErrRange)"
proof -
  obtain c cs where d: "decimal n = c # cs"
    using decimal_not_Nil[of n] by (cases "decimal n") auto
  have "is_digit c"
    using decimal_digits[of n] by (simp add: d)
  then have c: "c \<noteq> CHR ''+''" "c \<noteq> CHR ''-''"
    using is_digit_not_sign[of c] by simp_all
  have "ParseUint (c # cs) = (if n \<le> maxUint64 then Inr n else Inl ErrRange)"
    using ParseUint_loop_decimal[of n] by (simp add: ParseUint_def d)
  then show ?thesis
    using c by (auto simp add: Atoi_def ParseInt_def d maxUint64_def)
qed

lemma leadingInt_loop_length:
  "leadingInt_loop x s = Some (v, r) \<Longrightarrow> length r \<le> length s"
  by (induction x s rule: leadingInt_loop.induct) (auto split: if_splits)

lemma leadingFraction_loop_length:
  "leadingFraction_loop x sc ov s = (f, sc', r) \<Longrightarrow> length r \<le> length s"
  by (induction x sc ov s rule: leadingFraction_loop.induct) (auto split: if_splits)

lemma dropWhile_shorter:
  "takeWhile P s \<noteq> [] \<Longrightarrow> length (dropWhile P s) < length s"
  by (cases s) (auto simp: le_imp_less_Suc length_dropWhile_le split: if_splits)

text \<open>
  Every pass of \<^verbatim>\<open>ParseDuration\<close>'s loop shortens the string, so the guard on the
  lengths in \<open>ParseDuration_loop\<close> is never the branch taken.
\<close>

lemma ParseDuration_term_shorter:
  assumes "ParseDuration_term s = Inr (v, s')"
  shows "length s' < length s"
proof -
  from assms obtain c cs where s: "s = c # cs"
    by (cases s) (auto simp: ParseDuration_term_def)
  from assms s obtain v0 s1 where li: "leadingInt s = Some (v0, s1)"
    by (cases "leadingInt s") (auto simp: ParseDuration_term_def split: if_splits)
  have l1: "length s1 \<le> length s"
    using li leadingInt_loop_length by (simp add: leadingInt_def)
  define q where "q = (case s1 of
                      d # s1' \<Rightarrow>
                        if d = CHR ''.''
                        then (let (f, scale, r) = leadingFraction s1'
                              in (f, scale, r, length s1' \<noteq> length r))
                        else (0, 1, s1, False)
                    | [] \<Rightarrow> (0, 1, s1, False))"
  obtain f scale s2 post where q: "q = (f, scale, s2, post)"
    by (cases q) auto
  have l2: "length s2 \<le> length s1"
  proof (cases s1)
    case Nil
    with q show ?thesis by (simp add: q_def)
  next
    case (Cons d s1')
    show ?thesis
    proof (cases "d = CHR ''.''")
      case True
      obtain f' sc' r' where lf: "leadingFraction s1' = (f', sc', r')"
        by (cases "leadingFraction s1'") auto
      then have "length r' \<le> length s1'"
        using leadingFraction_loop_length by (simp add: leadingFraction_def)
      with q Cons True lf show ?thesis by (simp add: q_def)
    next
      case False
      with q Cons show ?thesis by (simp add: q_def)
    qed
  qed
  from assms have "takeWhile in_unit s2 \<noteq> [] \<and> s' = dropWhile in_unit s2"
    unfolding ParseDuration_term_def s[symmetric]
    using s li q[unfolded q_def]
    by (auto simp: Let_def split: if_splits option.splits list.splits)
  then show ?thesis
    using dropWhile_shorter[of in_unit s2] l1 l2 by simp
qed

lemma ParseDuration_loop_Nil: "ParseDuration_loop d [] = Inr d"
  by (simp add: ParseDuration_loop.simps)

lemma ParseDuration_loop_Cons:
  "ParseDuration_loop d (c # cs) =
     (case ParseDuration_term (c # cs) of
        Inl e \<Rightarrow> Inl e
      | Inr (v, s') \<Rightarrow>
          if (d + v) mod 2 ^ 64 > 2 ^ 63 then Inl InvalidDurationSyntax
          else ParseDuration_loop ((d + v) mod 2 ^ 64) s')"
  by (subst ParseDuration_loop.simps)
     (auto split: sum.splits dest: ParseDuration_term_shorter)

lemmas parse_eval = New_def parseRate_def Atoi_def ParseInt_def ParseUint_def is_digit_def
  digit_val_def maxUint64_def parseDuration_def ParseDuration_def ParseDuration_term_def
  leadingInt_def leadingFraction_def in_unit_def unitMap_def Seconds_def Second_def
  Minute_def Hour_def ParseDuration_loop_Nil ParseDuration_loop_Cons

section \<open>Facts about the rate parser and the bucket\<close>

lemma parseRate_decimal_s:
  "parseRate (decimal n @ ''/s'') =
     (if 0 < n \<and> n < 2 ^ 63 then Inr (of_nat n, int n) else Inl RequestsNotPositive)"
  by (simp add: parseRate_def Split_at_sep[OF slash_notin_decimal] Atoi_decimal
      parseDuration_def Seconds_def Second_def)

lemma New_decimal_s:
  "New (decimal n @ ''/s'') =
     (if 0 < n \<and> n < 2 ^ 63
      then Inr \<lparr>limiter = Some (NewLimiter (of_nat n) (int n)), enabled = True\<rparr>
      else Inl (InvalidRateFormat RequestsNotPositive))"
  by (simp add: New_def parseRate_decimal_s)



lemma advance_NewLimiter: "0 \<le> r \<Longrightarrow> advance now (NewLimiter r b) = of_int b"
  by (simp add: advance_def NewLimiter_def Seconds_def)

text \<open>
  A bucket holding \<open>T\<close> whole permits at the instant \<open>now\<close>: \<open>k \<le> T\<close> calls at that
  instant all succeed and leave \<open>T - k\<close>.
\<close>

lemma Allow_times_take:
  assumes "enabled rl" "limiter rl = Some l" "advance now l = of_nat T" "int T \<le> burst l"
    "k \<le> T"
  shows "fst (Allow_times now k rl) = replicate k None \<and>
         enabled (snd (Allow_times now k rl)) \<and>
         (\<exists>l'. limiter (snd (Allow_times now k rl)) = Some l' \<and> burst l' = burst l \<and>
               advance now l' = of_nat (T - k))"
  using assms
proof (induction k arbitrary: rl l T)
  case 0
  then show ?case by simp
next
  case (Suc k)
  then obtain T' where T: "T = Suc T'" by (cases T) auto
  let ?l' = "l\<lparr>tokens := of_nat T', last_time := now\<rparr>"
  let ?rl' = "rl\<lparr>limiter := Some ?l'\<rparr>"
  have step: "Allow now rl = (None, ?rl')"
    using Suc.prems T by (simp add: Allow_def Limiter_Allow_def)
  have adv: "advance now ?l' = of_nat T'"
    using Suc.prems T by (simp add: advance_def Seconds_def)
  have "fst (Allow_times now k ?rl') = replicate k None \<and>
        enabled (snd (Allow_times now k ?rl')) \<and>
        (\<exists>l'. limiter (snd (Allow_times now k ?rl')) = Some l' \<and> burst l' = burst ?l' \<and>
              advance now l' = of_nat (T' - k))"
    using Suc.prems T adv by (intro Suc.IH) simp_all
  then show ?case
    using step T by (simp add: case_prod_unfold)
qed

text \<open>With the bucket empty the next call fails and changes nothing.\<close>

lemma Allow_empty:
  assumes "enabled rl" "limiter rl = Some l" "advance now l = 0"
  shows "Allow now rl = (Some RateLimitExceeded, rl)"
  using assms by (simp add: Allow_def Limiter_Allow_def)

lemma Allow_times_Suc_end:
  "Allow_times now (Suc k) rl =
     (let (rs, rl') = Allow_times now k rl; (r, rl'') = Allow now rl'
      in (rs @ [r], rl''))"
  by (induction k arbitrary: rl) (simp_all add: case_prod_unfold Let_def)

lemma Allow_times_drain:
  assumes "enabled rl" "limiter rl = Some l" "advance now l = of_nat T" "int T \<le> burst l"
  shows "fst (Allow_times now (Suc T) rl) = replicate T None @ [Some RateLimitExceeded]"
proof -
  from Allow_times_take[OF assms, of T]
  obtain l' where t: "fst (Allow_times now T rl) = replicate T None"
    "enabled (snd (Allow_times now T rl))"
    "limiter (snd (Allow_times now T rl)) = Some l'" "advance now l' = 0"
    by auto
  from Allow_empty[OF t(2) t(3) t(4)] t(1) show ?thesis
    by (subst Allow_times_Suc_end) (simp add: case_prod_unfold)
qed

text \<open>An enabled limiter always has its bucket.\<close>

lemma reachable_limiter:
  "reachable rl \<Longrightarrow> enabled rl \<Longrightarrow> limiter rl \<noteq> None"
proof (induction rule: reachable.induct)
  case zero
  then show ?case by simp
next
  case (new rateStr rl)
  then show ?case
    by (auto simp: New_def split: if_splits sum.splits)
next
  case (allow rl now)
  then show ?case
    by (auto simp: Allow_def case_prod_unfold Let_def split: if_splits option.splits)
next
  case (setRate rl now1 now2 rateStr)
  then show ?case
    by (auto simp: SetRate_def split: if_splits sum.splits)
next
  case (wait rl l l')
  then show ?case by simp
qed


section \<open>The claims about the rate limiter\<close>

text \<open>
  C1. For every positive integer \<open>N\<close>, a limiter constructed from the rate
  specification \<open>N/s\<close> (\<open>N\<close> in decimal) admits exactly \<open>N\<close> consecutive calls of
  \<^verbatim>\<open>Allow\<close> with no time elapsing between them: each of the first \<open>N\<close> succeeds and
  takes one token, and call \<open>N + 1\<close> fails with \<open>RateLimitExceeded\<close>. Construction
  itself succeeds whenever \<open>N\<close> fits Go's 64-bit \<^verbatim>\<open>int\<close>.
\<close>

theorem Allow_exactly_N:
  assumes "0 < N"
  shows "(N < 2 ^ 63 \<longrightarrow> (\<exists>rl. New (decimal N @ ''/s'') = Inr rl)) \<and>
         (\<forall>rl. New (decimal N @ ''/s'') = Inr rl \<longrightarrow>
            fst (Allow_times now (Suc N) rl) = replicate N None @ [Some RateLimitExceeded] \<and>
            (\<forall>k\<le>N. \<exists>l. limiter (snd (Allow_times now k rl)) = Some l \<and>
                          Tokens now l = of_nat (N - k)))"
proof (intro conjI allI impI)
  assume "N < 2 ^ 63"
  with assms show "\<exists>rl. New (decimal N @ ''/s'') = Inr rl"
    by (simp add: New_decimal_s)
next
  fix rl
  assume new: "New (decimal N @ ''/s'') = Inr rl"
  define l where "l = NewLimiter (of_nat N) (int N)"
  from new have rl: "rl = \<lparr>limiter = Some l, enabled = True\<rparr>"
    by (simp add: New_decimal_s l_def split: if_splits)
  have en: "enabled rl" and lim: "limiter rl = Some l"
    by (simp_all add: rl)
  have adv: "advance now l = of_nat N"
    using advance_NewLimiter[of "of_nat N" now "int N"] by (simp add: l_def)
  have bur: "int N \<le> burst l"
    by (simp add: l_def NewLimiter_def)
  show "fst (Allow_times now (Suc N) rl) = replicate N None @ [Some RateLimitExceeded]"
    by (rule Allow_times_drain[OF en lim adv bur])
  show "\<exists>l. limiter (snd (Allow_times now k rl)) = Some l \<and> Tokens now l = of_nat (N - k)"
    if "k \<le> N" for k
    using Allow_times_take[OF en lim adv bur that] by (auto simp: Tokens_def)
qed

theorem Allow_exactly_N_witness:
  "New ''2/s'' = Inr \<lparr>limiter = Some (NewLimiter 2 2), enabled = True\<rparr> \<and>
   fst (Allow_times 7 3 \<lparr>limiter = Some (NewLimiter 2 2), enabled = True\<rparr>)
     = [None, None, Some RateLimitExceeded]"
proof -
  have d: "decimal 2 = ''2''"
    by (simp add: decimal.simps digit_char_def char_of_eq_iff)
  have n: "New ''2/s'' = Inr \<lparr>limiter = Some (NewLimiter 2 2), enabled = True\<rparr>"
    by (simp add: parse_eval)
  have "(0::nat) < 2" by simp
  from Allow_exactly_N[OF this, of 7] n d show ?thesis
    by (simp add: numeral_2_eq_2 numeral_3_eq_3)
qed




text \<open>
  C6 as stated names the token count \<open>availableTokens\<close>. The map that \<^verbatim>\<open>Stats\<close>
  builds has no such key, also for an enabled limiter: the count is stored under
  \<open>tokens\<close>.
\<close>

theorem Stats_availableTokens_absent:
  "New ''10/s'' = Inr \<lparr>limiter = Some (NewLimiter 10 10), enabled = True\<rparr> \<and>
   IsEnabled \<lparr>limiter = Some (NewLimiter 10 10), enabled = True\<rparr> \<and>
   Stats 0 \<lparr>limiter = Some (NewLimiter 10 10), enabled = True\<rparr> ''availableTokens'' = None"
  by (simp add: parse_eval IsEnabled_def Stats_def)

text \<open>
  C6, amended. For every \<^verbatim>\<open>RateLimiter\<close>, \<^verbatim>\<open>Stats\<close> returns a map that always holds
  \<open>enabled\<close> (a boolean, the value of \<^verbatim>\<open>IsEnabled\<close>). When the limiter is enabled the
  map holds exactly three more keys, \<open>limit\<close> (float), \<open>burst\<close> (int) and \<open>tokens\<close>
  (float, the current token count); when it is disabled \<open>enabled\<close> is the only key.
\<close>

theorem Stats_keys:
  assumes "reachable rl"
  shows "Stats now rl ''enabled'' = Some (AnyBool (IsEnabled rl)) \<and>
         dom (Stats now rl) =
           (if IsEnabled rl then {''enabled'', ''limit'', ''burst'', ''tokens''}
            else {''enabled''}) \<and>
         (IsEnabled rl \<longrightarrow>
            (\<exists>l. limiter rl = Some l \<and>
                 Stats now rl ''limit'' = Some (AnyFloat64 (Limit l)) \<and>
                 Stats now rl ''burst'' = Some (AnyInt (Burst l)) \<and>
                 Stats now rl ''tokens'' = Some (AnyFloat64 (Tokens now l))))"
proof (cases "enabled rl")
  case True
  with reachable_limiter[OF assms] obtain l where l: "limiter rl = Some l"
    by auto
  with True show ?thesis
    by (auto simp: Stats_def IsEnabled_def)
next
  case False
  then show ?thesis
    by (auto simp: Stats_def IsEnabled_def Let_def split: option.splits)
qed

theorem Stats_keys_witness:
  "dom (Stats 0 \<lparr>limiter = Some (NewLimiter 10 10), enabled = True\<rparr>)
     = {''enabled'', ''limit'', ''burst'', ''tokens''} \<and>
   Stats 0 \<lparr>limiter = Some (NewLimiter 10 10), enabled = True\<rparr> ''burst'' = Some (AnyInt 10) \<and>
   dom (Stats 0 \<lparr>limiter = None, enabled = False\<rparr>) = {''enabled''}"
proof -
  have "New ''10/s'' = Inr \<lparr>limiter = Some (NewLimiter 10 10), enabled = True\<rparr>"
    by (simp add: parse_eval)
  then have r: "reachable \<lparr>limiter = Some (NewLimiter 10 10), enabled = True\<rparr>"
    by (rule reachable.new)
  from Stats_keys[OF r, of 0] Stats_keys[OF reachable.zero, of 0] show ?thesis
    by (auto simp: IsEnabled_def Burst_def NewLimiter_def)
qed

text \<open>
  C7. On every \<^verbatim>\<open>RateLimiter\<close>, \<^verbatim>\<open>SetRate("")\<close> succeeds and disables it: the bucket
  is kept as it is and \<^verbatim>\<open>Allow\<close> no longer consults it. A following
  \<^verbatim>\<open>SetRate("5/s")\<close> succeeds, enables the limiter and sets its burst (and its limit)
  to 5.
\<close>

theorem SetRate_disable_then_enable:
  "fst (SetRate a1 a2 [] rl) = None \<and>
   \<not> IsEnabled (snd (SetRate a1 a2 [] rl)) \<and>
   limiter (snd (SetRate a1 a2 [] rl)) = limiter rl \<and>
   Allow now (snd (SetRate a1 a2 [] rl)) = (None, snd (SetRate a1 a2 [] rl)) \<and>
   fst (SetRate b1 b2 ''5/s'' (snd (SetRate a1 a2 [] rl))) = None \<and>
   IsEnabled (snd (SetRate b1 b2 ''5/s'' (snd (SetRate a1 a2 [] rl)))) \<and>
   (\<exists>l. limiter (snd (SetRate b1 b2 ''5/s'' (snd (SetRate a1 a2 [] rl)))) = Some l \<and>
        Burst l = 5 \<and> Limit l = 5) \<and>
   Stats now (snd (SetRate b1 b2 ''5/s'' (snd (SetRate a1 a2 [] rl)))) ''burst''
     = Some (AnyInt 5)"
proof -
  have p: "parseRate ''5/s'' = Inr (5, 5)"
    by (simp add: parse_eval)
  show ?thesis
    by (cases "limiter rl")
       (simp_all add: SetRate_def p IsEnabled_def Allow_def Stats_def Burst_def Limit_def
          NewLimiter_def SetBurst_def SetLimit_def)
qed

section \<open>Facts about 64-bit durations and header keys\<close>

lemma sint_minus64: "sint (x - y) = signed_take_bit 63 (sint x - sint y)" for x y :: "64 word"
  using sint_word_ariths(2)[of x y] by simp

lemma sint_times64: "sint (x * y) = signed_take_bit 63 (sint x * sint y)" for x y :: "64 word"
  using sint_word_ariths(3)[of x y] by simp

lemma sint_sub60:
  fixes e :: "64 word"
  assumes "0 <s e"
  shows "sint (e - 60) = sint e - 60"
proof -
  have p: "0 < sint e" using assms by (simp add: word_sless_alt)
  have u: "sint e < 2 ^ 63" using sint_lt[of e] by simp
  have s60: "sint (60 :: 64 word) = 60" by simp
  have "signed_take_bit 63 (sint e - 60) = sint e - 60"
    using p u by (intro signed_take_bit_int_eq_self) auto
  then show ?thesis by (simp only: sint_minus64 s60)
qed

text \<open>
  The duration \<^verbatim>\<open>time.Duration(ExpiresIn-60) * time.Second\<close> is the intended number of
  nanoseconds as long as it fits 64 bits, that is for \<open>ExpiresIn \<le> 9223372096\<close>.
\<close>

lemma sint_expiry_duration:
  fixes e :: "64 word"
  assumes "0 <s e" "sint e \<le> 9223372096"
  shows "sint ((e - 60) * 1000000000) = (sint e - 60) * 1000000000"
proof -
  have p: "0 < sint e" using assms by (simp add: word_sless_alt)
  have sec: "sint (1000000000 :: 64 word) = 1000000000" by simp
  have "signed_take_bit 63 ((sint e - 60) * 1000000000) = (sint e - 60) * 1000000000"
    using p assms(2) by (intro signed_take_bit_int_eq_self) auto
  then show ?thesis by (simp only: sint_times64 sec sint_sub60[OF assms(1)])
qed

lemmas header_eval = CanonicalMIMEHeaderKey_def validHeaderFieldByte_def is_digit_def
  is_lower_def is_upper_def Let_def char_of_eq_iff

lemma Canonical_Authorization: "CanonicalMIMEHeaderKey ''Authorization'' = ''Authorization''"
  by (simp add: header_eval)

lemma Header_Get_Set: "Header_Get (Header_Set h key v) key = v"
  by (simp add: Header_Get_def Header_Set_def)

text \<open>The cases of \<^verbatim>\<open>fetchToken\<close>: every failure leaves the authenticator as it was.\<close>

lemma fetchToken_failure:
  assumes "net (tokenRequest o2) = NewRequestError \<or> net (tokenRequest o2) = DoError \<or>
           (\<exists>status body. net (tokenRequest o2) = Response status body \<and>
              (status \<noteq> 200 \<or> body = None \<or> (\<exists>tr. body = Some tr \<and> AccessToken tr = [])))"
  shows "\<exists>err. fetchToken net now o2 = (Inl err, o2)"
  using assms by (auto simp: fetchToken_def)

lemma fetchToken_success:
  assumes "net (tokenRequest o2) = Response 200 (Some tr)" "AccessToken tr \<noteq> []"
  shows "fetchToken net now o2 =
           (Inr (AccessToken tr),
            o2\<lparr>token := AccessToken tr,
                expiry := (if 0 <s ExpiresIn tr
                           then now + sint ((ExpiresIn tr - 60) * 1000000000)
                           else now + 55 * Minute)\<rparr>)"
  using assms by (simp add: fetchToken_def)

section \<open>The claims about the authenticators\<close>

text \<open>
  C2. For every OAuth2 authenticator whose cache does not answer the call (so that the
  token is fetched): if the fetch fails, because the request cannot be built or sent,
  because the status is not 200, or because the body does not decode or carries no
  non-empty access token, then \<^verbatim>\<open>Apply\<close> returns the wrapped fetch error, the request
  is returned unchanged (no header is set), and the authenticator, its cached token and
  expiry included, is exactly as before.
\<close>

theorem Apply_failed_fetch:
  assumes "\<not> tokenValid now1 o2" "\<not> tokenValid now2 o2"
    and "net (tokenRequest o2) = NewRequestError \<or> net (tokenRequest o2) = DoError \<or>
         (\<exists>status body. net (tokenRequest o2) = Response status body \<and>
            (status \<noteq> 200 \<or> body = None \<or> (\<exists>tr. body = Some tr \<and> AccessToken tr = [])))"
  shows "\<exists>err. OAuth2_Apply net now1 now2 now3 o2 req = (Some (GetTokenFailed err), req, o2)"
proof -
  from fetchToken_failure[of net o2 now3] assms(3) obtain err
    where "fetchToken net now3 o2 = (Inl err, o2)" by blast
  with assms(1,2) show ?thesis
    by (simp add: OAuth2_Apply_def getValidToken_def)
qed

theorem Apply_failed_fetch_witness:
  "OAuth2_Apply (\<lambda>_. Response 500 None) 10 11 12
     \<lparr>clientID = ''id'', clientSecret = ''secret'', tokenURL = ''https://auth.example.com/token'',
      scopes = [], token = ''old'', expiry = 5\<rparr>
     \<lparr>Header = Map.empty\<rparr>
   = (Some (GetTokenFailed (TokenStatusFailed 500)), \<lparr>Header = Map.empty\<rparr>,
      \<lparr>clientID = ''id'', clientSecret = ''secret'', tokenURL = ''https://auth.example.com/token'',
       scopes = [], token = ''old'', expiry = 5\<rparr>)"
proof -
  let ?o = "\<lparr>clientID = ''id'', clientSecret = ''secret'',
             tokenURL = ''https://auth.example.com/token'',
             scopes = [], token = ''old'', expiry = 5\<rparr>"
  let ?net = "\<lambda>_ :: TokenRequest. Response 500 None"
  have v1: "\<not> tokenValid 10 ?o" and v2: "\<not> tokenValid 11 ?o"
    by (simp_all add: tokenValid_def)
  have f: "?net (tokenRequest ?o) = NewRequestError \<or> ?net (tokenRequest ?o) = DoError \<or>
         (\<exists>status body. ?net (tokenRequest ?o) = Response status body \<and>
            (status \<noteq> 200 \<or> body = None \<or> (\<exists>tr. body = Some tr \<and> AccessToken tr = [])))"
    by simp
  from Apply_failed_fetch[OF v1 v2 f, of 12 "\<lparr>Header = Map.empty\<rparr>"]
  obtain err where e: "OAuth2_Apply ?net 10 11 12 ?o \<lparr>Header = Map.empty\<rparr>
                       = (Some (GetTokenFailed err), \<lparr>Header = Map.empty\<rparr>, ?o)"
    by blast
  have "OAuth2_Apply ?net 10 11 12 ?o \<lparr>Header = Map.empty\<rparr>
          = (Some (GetTokenFailed (TokenStatusFailed 500)), \<lparr>Header = Map.empty\<rparr>, ?o)"
    by (simp add: OAuth2_Apply_def getValidToken_def tokenValid_def fetchToken_def)
  with e show ?thesis by simp
qed

text \<open>
  C3 at a response the endpoint may send: status 200,
  \<open>{"access_token": "abc", "expires_in": 10000000000}\<close>. The claim gives the expiry
  \<open>now + 9999999940\<close> seconds. The product \<open>(10000000000 - 60) * 1000000000\<close> does not fit
  the 64-bit \<^verbatim>\<open>time.Duration\<close> and wraps to \<open>- 8446744133709551616\<close> nanoseconds, so the
  cached expiry lies some 267 years before \<open>now\<close>.
\<close>

theorem fetchToken_expiry_overflow:
  "snd (fetchToken
          (\<lambda>_. Response 200
                  (Some \<lparr>AccessToken = ''abc'', TokenType = ''Bearer'', ExpiresIn = 10000000000\<rparr>))
          0
          \<lparr>clientID = ''id'', clientSecret = ''secret'',
           tokenURL = ''https://auth.example.com/token'',
           scopes = [], token = [], expiry = 0\<rparr>)
   = \<lparr>clientID = ''id'', clientSecret = ''secret'',
      tokenURL = ''https://auth.example.com/token'',
      scopes = [], token = ''abc'', expiry = - 8446744133709551616\<rparr>"
  by (simp add: fetchToken_def word_sless_alt)

text \<open>
  Short of that overflow the expiry is the one C3 states: for a successful fetch with
  \<open>0 < expires_in \<le> 9223372096\<close> it is \<open>now + (expires_in - 60)\<close> seconds, and with
  \<open>expires_in\<close> absent or not positive it is \<open>now + 55\<close> minutes.
\<close>

lemma fetchToken_expiry_in_range:
  assumes "fetchToken net now o2 = (Inr tok, o3)"
    and "net (tokenRequest o2) = Response status (Some tr)"
  shows "tok = AccessToken tr \<and> token o3 = AccessToken tr \<and>
         (0 <s ExpiresIn tr \<and> sint (ExpiresIn tr) \<le> 9223372096 \<longrightarrow>
            expiry o3 = now + (sint (ExpiresIn tr) - 60) * Second) \<and>
         (\<not> 0 <s ExpiresIn tr \<longrightarrow> expiry o3 = now + 55 * Minute)"
  using assms
  by (auto simp: fetchToken_def sint_expiry_duration Second_def
      simp del: left_diff_distrib_numeral split: if_splits)

text \<open>
  C5. For every configuration \<^verbatim>\<open>NewAuthenticator\<close> returns no error and at most one
  authenticator, chosen in this order: \<^verbatim>\<open>BasicAuth\<close> if the user name or the password
  is set, else \<^verbatim>\<open>BearerAuth\<close> if the bearer token is set, else
  \<^verbatim>\<open>OAuth2ClientCredentials\<close> (with an empty cache) if client id, client secret and
  token URL are all set, else \<^verbatim>\<open>CustomAuth\<close> if header name and value are both set,
  else none.
\<close>

theorem NewAuthenticator_precedence:
  "NewAuthenticator config =
     Inr (if Username config \<noteq> [] \<or> Password config \<noteq> []
          then Some (Basic \<lparr>username = Username config, password = Password config\<rparr>)
          else if BearerToken config \<noteq> []
          then Some (Bearer \<lparr>bearer_token = BearerToken config\<rparr>)
          else if ClientID config \<noteq> [] \<and> ClientSecret config \<noteq> [] \<and> TokenURL config \<noteq> []
          then Some (OAuth2 \<lparr>clientID = ClientID config, clientSecret = ClientSecret config,
                             tokenURL = TokenURL config, scopes = Scopes config,
                             token = [], expiry = 0\<rparr>)
          else if CustomHeader config \<noteq> [] \<and> CustomValue config \<noteq> []
          then Some (Custom \<lparr>header = CustomHeader config, header_value = CustomValue config\<rparr>)
          else None)"
  by (simp add: NewAuthenticator_def NewBasicAuth_def NewBearerAuth_def NewCustomAuth_def
      NewOAuth2ClientCredentials_def)

theorem NewAuthenticator_precedence_witness:
  "NewAuthenticator \<lparr>Username = [], Password = ''pw'', BearerToken = ''tok'',
                     ClientID = ''id'', ClientSecret = ''secret'', TokenURL = ''url'',
                     Scopes = [], CustomHeader = ''X-Api-Key'', CustomValue = ''k''\<rparr>
     = Inr (Some (Basic \<lparr>username = [], password = ''pw''\<rparr>)) \<and>
   NewAuthenticator \<lparr>Username = [], Password = [], BearerToken = [],
                     ClientID = ''id'', ClientSecret = ''secret'', TokenURL = [],
                     Scopes = [], CustomHeader = ''X-Api-Key'', CustomValue = ''k''\<rparr>
     = Inr (Some (Custom \<lparr>header = ''X-Api-Key'', header_value = ''k''\<rparr>)) \<and>
   NewAuthenticator \<lparr>Username = [], Password = [], BearerToken = [],
                     ClientID = ''id'', ClientSecret = [], TokenURL = ''url'',
                     Scopes = [], CustomHeader = ''X-Api-Key'', CustomValue = []\<rparr>
     = Inr None"
proof -
  have a: "NewAuthenticator \<lparr>Username = [], Password = ''pw'', BearerToken = ''tok'',
                     ClientID = ''id'', ClientSecret = ''secret'', TokenURL = ''url'',
                     Scopes = [], CustomHeader = ''X-Api-Key'', CustomValue = ''k''\<rparr>
     = Inr (Some (Basic \<lparr>username = [], password = ''pw''\<rparr>))"
    by (subst NewAuthenticator_precedence) simp
  have b: "NewAuthenticator \<lparr>Username = [], Password = [], BearerToken = [],
                     ClientID = ''id'', ClientSecret = ''secret'', TokenURL = [],
                     Scopes = [], CustomHeader = ''X-Api-Key'', CustomValue = ''k''\<rparr>
     = Inr (Some (Custom \<lparr>header = ''X-Api-Key'', header_value = ''k''\<rparr>))"
    by (subst NewAuthenticator_precedence) simp
  have c: "NewAuthenticator \<lparr>Username = [], Password = [], BearerToken = [],
                     ClientID = ''id'', ClientSecret = [], TokenURL = ''url'',
                     Scopes = [], CustomHeader = ''X-Api-Key'', CustomValue = []\<rparr>
     = Inr None"
    by (subst NewAuthenticator_precedence) simp
  from a b c show ?thesis by simp
qed

text \<open>
  C9. \<^verbatim>\<open>Apply\<close> of \<^verbatim>\<open>BasicAuth\<close>, \<^verbatim>\<open>BearerAuth\<close> and \<^verbatim>\<open>CustomAuth\<close> never returns an
  error. With empty credentials (user name and password both empty; empty token; header
  name or value empty) the request comes back unchanged. Otherwise exactly one header
  is set and every other one is kept: \<^verbatim>\<open>Authorization\<close> to \<^verbatim>\<open>Basic\<close> with the base64
  credentials, \<^verbatim>\<open>Authorization\<close> to \<^verbatim>\<open>Bearer\<close> with the token, and the configured
  header (under its canonical name) to the configured value.
\<close>

theorem stateless_Apply:
  "fst (BasicAuth_Apply b req) = None \<and>
   fst (BearerAuth_Apply br req) = None \<and>
   fst (CustomAuth_Apply c req) = None \<and>
   (username b = [] \<and> password b = [] \<longrightarrow> snd (BasicAuth_Apply b req) = req) \<and>
   (bearer_token br = [] \<longrightarrow> snd (BearerAuth_Apply br req) = req) \<and>
   (header c = [] \<or> header_value c = [] \<longrightarrow> snd (CustomAuth_Apply c req) = req) \<and>
   (username b \<noteq> [] \<or> password b \<noteq> [] \<longrightarrow>
      snd (BasicAuth_Apply b req) =
        req\<lparr>Header := (Header req)(''Authorization'' \<mapsto> [''Basic '' @ EncodeCredentials b])\<rparr> \<and>
      Header_Get (Header (snd (BasicAuth_Apply b req))) ''Authorization''
        = ''Basic '' @ EncodeCredentials b) \<and>
   (bearer_token br \<noteq> [] \<longrightarrow>
      snd (BearerAuth_Apply br req) =
        req\<lparr>Header := (Header req)(''Authorization'' \<mapsto> [''Bearer '' @ bearer_token br])\<rparr> \<and>
      Header_Get (Header (snd (BearerAuth_Apply br req))) ''Authorization''
        = ''Bearer '' @ bearer_token br) \<and>
   (header c \<noteq> [] \<and> header_value c \<noteq> [] \<longrightarrow>
      snd (CustomAuth_Apply c req) =
        req\<lparr>Header := (Header req)(CanonicalMIMEHeaderKey (header c) \<mapsto> [header_value c])\<rparr> \<and>
      Header_Get (Header (snd (CustomAuth_Apply c req))) (header c) = header_value c)"
  by (auto simp: BasicAuth_Apply_def BearerAuth_Apply_def CustomAuth_Apply_def SetBasicAuth_def
      EncodeCredentials_def Header_Set_def Header_Get_def Canonical_Authorization)

theorem stateless_Apply_witness:
  "BasicAuth_Apply \<lparr>username = ''user'', password = ''pass''\<rparr> \<lparr>Header = [''Accept'' \<mapsto> [''*/*'']]\<rparr>
     = (None, \<lparr>Header = [''Accept'' \<mapsto> [''*/*''], ''Authorization'' \<mapsto> [''Basic dXNlcjpwYXNz'']]\<rparr>) \<and>
   BearerAuth_Apply \<lparr>bearer_token = []\<rparr> \<lparr>Header = [''Accept'' \<mapsto> [''*/*'']]\<rparr>
     = (None, \<lparr>Header = [''Accept'' \<mapsto> [''*/*'']]\<rparr>) \<and>
   CustomAuth_Apply \<lparr>header = ''x-api-key'', header_value = ''k''\<rparr> \<lparr>Header = Map.empty\<rparr>
     = (None, \<lparr>Header = [''X-Api-Key'' \<mapsto> [''k'']]\<rparr>)"
proof -
  have enc: "EncodeCredentials \<lparr>username = ''user'', password = ''pass''\<rparr> = ''dXNlcjpwYXNz''"
    by (simp add: EncodeCredentials_def encodeStd_def)
  have can: "CanonicalMIMEHeaderKey ''x-api-key'' = ''X-Api-Key''"
    by (simp add: header_eval)
  from stateless_Apply[of "\<lparr>username = ''user'', password = ''pass''\<rparr>"
      "\<lparr>Header = [''Accept'' \<mapsto> [''*/*'']]\<rparr>" "\<lparr>bearer_token = []\<rparr>"
      "\<lparr>header = ''x-api-key'', header_value = ''k''\<rparr>"]
    stateless_Apply[of "\<lparr>username = ''user'', password = ''pass''\<rparr>"
      "\<lparr>Header = Map.empty\<rparr>" "\<lparr>bearer_token = []\<rparr>"
      "\<lparr>header = ''x-api-key'', header_value = ''k''\<rparr>"]
  show ?thesis
    by (simp add: enc can prod_eq_iff)
qed

text \<open>
  C10. When a successful fetch at the instant \<open>now\<close> returns \<open>0 < expires_in \<le> 60\<close>, the
  cached expiry \<open>now + (expires_in - 60)\<close> seconds is not after \<open>now\<close>. No later check
  finds the token valid, so the next \<^verbatim>\<open>getValidToken\<close> (and \<^verbatim>\<open>Apply\<close> with it) goes
  to the token endpoint again, whatever the endpoint is by then.
\<close>

theorem short_expiry_never_cached:
  assumes "net (tokenRequest o2) = Response 200 (Some tr)" "AccessToken tr \<noteq> []"
    and "0 <s ExpiresIn tr" "ExpiresIn tr \<le>s 60"
    and "now \<le> t1" "now \<le> t2"
  shows "fst (fetchToken net now o2) = Inr (AccessToken tr) \<and>
         token (snd (fetchToken net now o2)) = AccessToken tr \<and>
         expiry (snd (fetchToken net now o2)) = now + (sint (ExpiresIn tr) - 60) * Second \<and>
         expiry (snd (fetchToken net now o2)) \<le> now \<and>
         \<not> tokenValid t1 (snd (fetchToken net now o2)) \<and>
         \<not> tokenValid t2 (snd (fetchToken net now o2)) \<and>
         getValidToken net' t1 t2 t3 (snd (fetchToken net now o2))
           = fetchToken net' t3 (snd (fetchToken net now o2))"
proof -
  have fs: "fetchToken net now o2 =
              (Inr (AccessToken tr),
               o2\<lparr>token := AccessToken tr,
                   expiry := now + sint ((ExpiresIn tr - 60) * 1000000000)\<rparr>)"
    using fetchToken_success[of net o2 tr now] assms(1,2,3) by simp
  have le: "sint (ExpiresIn tr) \<le> 60"
    using assms(4) by (simp add: word_sle_eq)
  then have d: "sint ((ExpiresIn tr - 60) * 1000000000) = (sint (ExpiresIn tr) - 60) * 1000000000"
    by (intro sint_expiry_duration[OF assms(3)]) simp
  have e: "expiry (snd (fetchToken net now o2)) = now + (sint (ExpiresIn tr) - 60) * Second"
    by (simp only: fs d Second_def) simp
  have past: "expiry (snd (fetchToken net now o2)) \<le> now"
    using le by (simp add: e Second_def)
  have nv: "\<not> tokenValid t (snd (fetchToken net now o2))" if "now \<le> t" for t
    using past that by (simp add: tokenValid_def)
  have "fst (fetchToken net now o2) = Inr (AccessToken tr)"
    and "token (snd (fetchToken net now o2)) = AccessToken tr"
    by (simp_all only: fs) simp_all
  then show ?thesis
    using e past nv[OF assms(5)] nv[OF assms(6)]
    by (simp add: getValidToken_def)
qed

theorem short_expiry_never_cached_witness:
  "expiry (snd (fetchToken
          (\<lambda>_. Response 200
                  (Some \<lparr>AccessToken = ''abc'', TokenType = ''Bearer'', ExpiresIn = 30\<rparr>))
          1000
          \<lparr>clientID = ''id'', clientSecret = ''secret'', tokenURL = ''url'',
           scopes = [], token = [], expiry = 0\<rparr>)) = 1000 - 30000000000 \<and>
   \<not> tokenValid 1000 (snd (fetchToken
          (\<lambda>_. Response 200
                  (Some \<lparr>AccessToken = ''abc'', TokenType = ''Bearer'', ExpiresIn = 30\<rparr>))
          1000
          \<lparr>clientID = ''id'', clientSecret = ''secret'', tokenURL = ''url'',
           scopes = [], token = [], expiry = 0\<rparr>))"
proof -
  let ?tr = "\<lparr>AccessToken = ''abc'', TokenType = ''Bearer'', ExpiresIn = 30\<rparr>"
  let ?net = "\<lambda>_ :: TokenRequest. Response 200 (Some ?tr)"
  let ?o = "\<lparr>clientID = ''id'', clientSecret = ''secret'', tokenURL = ''url'',
             scopes = [], token = [], expiry = 0\<rparr>"
  from short_expiry_never_cached[of ?net ?o ?tr 1000 1000 1000 ?net 1000]
  show ?thesis
    by (simp add: Second_def word_sless_alt word_sle_eq)
qed


section \<open>Facts about concurrent callers\<close>






















end
